theory Spec2Isabelle
  imports Main
begin

section \<open>The lambda compiler of package ast (lambda.go)\<close>

subsection \<open>Data of package machine that the compiler builds\<close>

text \<open>
  A \<^verbatim>\<open>*machine.Expr\<close> handed out by \<^verbatim>\<open>CompileAll\<close> is the address
  \<^verbatim>\<open>&compiled[i]\<close> of a cell of the local slice \<^verbatim>\<open>compiled\<close>: it is modelled by
  the index of the cell.
\<close>

datatype ptr = Ptr nat

text \<open>
  \<^verbatim>\<open>machine.FreeExpr\<close> is an interface of package machine. The compiler builds four of
  its implementations, with exactly the fields below (in the order of the Go struct
  literals); \<open>FreeOther\<close> stands for any further implementation that a \<^verbatim>\<open>Const\<close> node
  may wrap. The type \<open>'m\<close> is the annotation type \<^verbatim>\<open>interface{}\<close> of the \<^verbatim>\<open>Meta\<close>
  fields.
\<close>

datatype ('m, 'c) FreeExpr =
    FreeVar 'm
  | FreeAbst bool "('m, 'c) FreeExpr" 'm
  | FreeAppl nat nat "('m, 'c) FreeExpr" "('m, 'c) FreeExpr" 'm
  | FreeRef ptr 'm
  | FreeOther 'c

subsection \<open>Syntax nodes\<close>

text \<open>
  The five implementations of the interface \<^verbatim>\<open>Node\<close>: \<^verbatim>\<open>Const{Value, Meta}\<close>,
  \<^verbatim>\<open>Var{Name, Meta}\<close>, \<^verbatim>\<open>Abst{Bound, Body, Meta}\<close>, \<^verbatim>\<open>Appl{Left, Right, Meta}\<close> and
  \<^verbatim>\<open>Global{Name, Meta}\<close>.
\<close>

datatype ('m, 'c) Node =
    Const "('m, 'c) FreeExpr" 'm
  | Var string 'm
  | Abst string "('m, 'c) Node" 'm
  | Appl "('m, 'c) Node" "('m, 'c) Node" 'm
  | Global string 'm

fun MetaInfo :: "('m, 'c) Node \<Rightarrow> 'm" where
  "MetaInfo (Const v meta) = meta"
| "MetaInfo (Var name meta) = meta"
| "MetaInfo (Abst bound body meta) = meta"
| "MetaInfo (Appl left right meta) = meta"
| "MetaInfo (Global name meta) = meta"

text \<open>\<^verbatim>\<open>HasFree\<close>; the receiver is the second argument.\<close>

fun HasFree :: "string \<Rightarrow> ('m, 'c) Node \<Rightarrow> bool" where
  "HasFree name (Const v meta) = False"
| "HasFree name (Var vname meta) = (name = vname)"
| "HasFree name (Abst bound body meta) = (name \<noteq> bound \<and> HasFree name body)"
| "HasFree name (Appl left right meta) = (HasFree name left \<or> HasFree name right)"
| "HasFree name (Global gname meta) = False"

subsection \<open>Failures\<close>

text \<open>
  A run of the compiler ends with a value, with a \<^verbatim>\<open>*CompileError{Node, Msg}\<close>, or with
  a run-time panic of Go: a slice expression out of range, an index out of range, or a
  method call on a nil \<^verbatim>\<open>Node\<close>.
\<close>

datatype panic = SliceBounds | IndexRange | NilNode

datatype ('m, 'c) failure =
    CompileError (ErrNode: "('m, 'c) Node") (Msg: string)
  | Panic panic

text \<open>\<^verbatim>\<open>fmt.Sprintf("'%s' not defined", name)\<close>\<close>

definition not_defined_msg :: "string \<Rightarrow> string" where
  "not_defined_msg name = CHR 0x27 # name @ CHR 0x27 # '' not defined''"

text \<open>The slice expression \<^verbatim>\<open>s[low:]\<close>, which panics unless \<^verbatim>\<open>low <= len(s)\<close>.\<close>

definition slice_from :: "'a list \<Rightarrow> nat \<Rightarrow> 'a list option" where
  "slice_from s low = (if low \<le> length s then Some (drop low s) else None)"

subsection \<open>CompileFree\<close>

text \<open>
  The two counting loops of \<^verbatim>\<open>Appl.CompileFree\<close>:
  \<^verbatim>\<open>for _, name := range free { if side.HasFree(name) { break }; drop++ }\<close>,
  with the counter as accumulator.
\<close>

fun drop_loop :: "('m, 'c) Node \<Rightarrow> string list \<Rightarrow> nat \<Rightarrow> nat" where
  "drop_loop side [] d = d"
| "drop_loop side (name # rest) d =
     (if HasFree name side then d else drop_loop side rest (d + 1))"

fun CompileFree ::
  "(string \<rightharpoonup> ptr) \<Rightarrow> string list \<Rightarrow> ('m, 'c) Node \<Rightarrow> ('m, 'c) failure + ('m, 'c) FreeExpr"
where
  "CompileFree globals free (Const v meta) = Inr v"
| "CompileFree globals free (Var name meta) =
     (if length free = 0 \<or> hd free \<noteq> name
      then Inl (CompileError (Var name meta) (not_defined_msg name))
      else Inr (FreeVar meta))"
| "CompileFree globals free (Abst bound body meta) =
     (if \<not> HasFree bound body then
        (case CompileFree globals free body of
           Inl err \<Rightarrow> Inl err
         | Inr b \<Rightarrow> Inr (FreeAbst False b meta))
      else
        (let freeWithBound = [bound] @ free in
         case CompileFree globals freeWithBound body of
           Inl err \<Rightarrow> Inl err
         | Inr b \<Rightarrow> Inr (FreeAbst True b meta)))"
| "CompileFree globals free (Appl left right meta) =
     (let ldrop = drop_loop left free 0;
          rdrop = drop_loop right free 0
      in case slice_from free ldrop of
           None \<Rightarrow> Inl (Panic SliceBounds)
         | Some lfree \<Rightarrow>
        (case slice_from free rdrop of
           None \<Rightarrow> Inl (Panic SliceBounds)
         | Some rfree \<Rightarrow>
        (case CompileFree globals lfree left of
           Inl err \<Rightarrow> Inl err
         | Inr l \<Rightarrow>
        (case CompileFree globals rfree right of
           Inl err \<Rightarrow> Inl err
         | Inr r \<Rightarrow> Inr (FreeAppl ldrop rdrop l r meta)))))"
| "CompileFree globals free (Global name meta) =
     (case globals name of
        None \<Rightarrow> Inl (CompileError (Global name meta) (not_defined_msg name))
      | Some global \<Rightarrow> Inr (FreeRef global meta))"

subsection \<open>CompileSingle and CompileAll\<close>

text \<open>
  \<^verbatim>\<open>Fill\<close> is a method of \<^verbatim>\<open>machine.FreeExpr\<close> and \<^verbatim>\<open>machine.Expr\<close> is its result
  type; both belong to package machine and are parameters here (\<open>'e\<close> for
  \<^verbatim>\<open>machine.Expr\<close>). Both entry points call \<^verbatim>\<open>Fill(nil)\<close>; a nil map has no key and a
  nil slice has length 0.
\<close>

definition CompileSingle ::
  "(('m, 'c) FreeExpr \<Rightarrow> 'e list \<Rightarrow> 'e) \<Rightarrow> ('m, 'c) Node \<Rightarrow> ('m, 'c) failure + 'e"
where
  "CompileSingle Fill node =
     (case CompileFree Map.empty [] node of
        Inl err \<Rightarrow> Inl err
      | Inr free \<Rightarrow> Inr (Fill free []))"

text \<open>
  The argument of \<^verbatim>\<open>CompileAll\<close> is a Go map; it is given as the list of its entries in
  the order in which the first \<^verbatim>\<open>range\<close> statement visits them (Go leaves that order
  open), so its keys are distinct. \<^verbatim>\<open>globals[name]\<close> is \<open>map_of globals name\<close>. A cell
  of \<^verbatim>\<open>compiled\<close> holds a \<^verbatim>\<open>machine.Expr\<close>, whose zero value nil is \<open>None\<close>.
\<close>

text \<open>\<^verbatim>\<open>for i, name := range globalNames { compiledPtrs[name] = &compiled[i] }\<close>\<close>

fun ptrs_loop :: "(nat \<times> string) list \<Rightarrow> (string \<rightharpoonup> ptr) \<Rightarrow> (string \<rightharpoonup> ptr)" where
  "ptrs_loop [] compiledPtrs = compiledPtrs"
| "ptrs_loop ((i, name) # rest) compiledPtrs = ptrs_loop rest (compiledPtrs(name \<mapsto> Ptr i))"

text \<open>The compiling loop; it returns the slice \<^verbatim>\<open>compiled\<close> as the loop leaves it.\<close>

fun compile_loop ::
  "(('m, 'c) FreeExpr \<Rightarrow> 'e list \<Rightarrow> 'e) \<Rightarrow> (string \<times> ('m, 'c) Node) list \<Rightarrow> (string \<rightharpoonup> ptr) \<Rightarrow>
   (nat \<times> string) list \<Rightarrow> 'e option list \<Rightarrow> ('m, 'c) failure + 'e option list"
where
  "compile_loop Fill globals compiledPtrs [] compiled = Inr compiled"
| "compile_loop Fill globals compiledPtrs ((i, name) # rest) compiled =
     (case map_of globals name of
        None \<Rightarrow> Inl (Panic NilNode)
      | Some node \<Rightarrow>
        (case CompileFree compiledPtrs [] node of
           Inl err \<Rightarrow> Inl err
         | Inr compiledFree \<Rightarrow>
             if i < length compiled
             then compile_loop Fill globals compiledPtrs rest
                    (compiled[i := Some (Fill compiledFree [])])
             else Inl (Panic IndexRange)))"

text \<open>\<^verbatim>\<open>for i, name := range globalNames { compiledMap[name] = compiled[i] }\<close>\<close>

fun map_loop ::
  "(nat \<times> string) list \<Rightarrow> 'e option list \<Rightarrow> (string \<rightharpoonup> 'e option) \<Rightarrow>
   panic + (string \<rightharpoonup> 'e option)"
where
  "map_loop [] compiled compiledMap = Inr compiledMap"
| "map_loop ((i, name) # rest) compiled compiledMap =
     (if i < length compiled
      then map_loop rest compiled (compiledMap(name \<mapsto> compiled ! i))
      else Inl IndexRange)"

definition slot_table :: "string list \<Rightarrow> (string \<rightharpoonup> ptr)" where
  "slot_table globalNames = ptrs_loop (enumerate 0 globalNames) Map.empty"

definition CompileAll ::
  "(('m, 'c) FreeExpr \<Rightarrow> 'e list \<Rightarrow> 'e) \<Rightarrow> (string \<times> ('m, 'c) Node) list \<Rightarrow>
   ('m, 'c) failure + (string \<rightharpoonup> 'e option)"
where
  "CompileAll Fill globals =
     (let globalNames = map fst globals;
          compiled = replicate (length globalNames) None;
          compiledPtrs = slot_table globalNames
      in case compile_loop Fill globals compiledPtrs (enumerate 0 globalNames) compiled of
           Inl err \<Rightarrow> Inl err
         | Inr compiled' \<Rightarrow>
             (case map_loop (enumerate 0 globalNames) compiled' Map.empty of
                Inl p \<Rightarrow> Inl (Panic p)
              | Inr compiledMap \<Rightarrow> Inr compiledMap))"

subsection \<open>Notions the properties speak of\<close>

text \<open>
  An occurrence of \<open>n\<close> in a node that no \<^verbatim>\<open>Abst\<close> between the root and the occurrence
  binds again: the walk collects the binders it passes.
\<close>

fun occurs_unbound :: "string \<Rightarrow> string list \<Rightarrow> ('m, 'c) Node \<Rightarrow> bool" where
  "occurs_unbound n binders (Const v meta) = False"
| "occurs_unbound n binders (Var name meta) = (name = n \<and> n \<notin> set binders)"
| "occurs_unbound n binders (Abst bound body meta) = occurs_unbound n (bound # binders) body"
| "occurs_unbound n binders (Appl left right meta) =
     (occurs_unbound n binders left \<or> occurs_unbound n binders right)"
| "occurs_unbound n binders (Global name meta) = False"

text \<open>Every \<^verbatim>\<open>Var\<close> of the node is bound by an enclosing \<^verbatim>\<open>Abst\<close> or by \<open>binders\<close>.\<close>

fun scoped :: "string list \<Rightarrow> ('m, 'c) Node \<Rightarrow> bool" where
  "scoped binders (Const v meta) = True"
| "scoped binders (Var name meta) = (name \<in> set binders)"
| "scoped binders (Abst bound body meta) = scoped (bound # binders) body"
| "scoped binders (Appl left right meta) = (scoped binders left \<and> scoped binders right)"
| "scoped binders (Global name meta) = True"

text \<open>The names of the \<^verbatim>\<open>Global\<close> nodes of a node.\<close>

fun global_names :: "('m, 'c) Node \<Rightarrow> string set" where
  "global_names (Const v meta) = {}"
| "global_names (Var name meta) = {}"
| "global_names (Abst bound body meta) = global_names body"
| "global_names (Appl left right meta) = global_names left \<union> global_names right"
| "global_names (Global name meta) = {name}"

text \<open>The nodes of a tree, the root first.\<close>

fun subnodes :: "('m, 'c) Node \<Rightarrow> ('m, 'c) Node list" where
  "subnodes (Abst bound body meta) = Abst bound body meta # subnodes body"
| "subnodes (Appl left right meta) = Appl left right meta # subnodes left @ subnodes right"
| "subnodes node = [node]"

text \<open>The \<^verbatim>\<open>Meta\<close> field of the four expressions the compiler builds.\<close>

fun FreeMeta :: "('m, 'c) FreeExpr \<Rightarrow> 'm option" where
  "FreeMeta (FreeVar meta) = Some meta"
| "FreeMeta (FreeAbst used body meta) = Some meta"
| "FreeMeta (FreeAppl ldrop rdrop left right meta) = Some meta"
| "FreeMeta (FreeRef ref meta) = Some meta"
| "FreeMeta (FreeOther c) = None"

section \<open>Properties\<close>

subsection \<open>HasFree and the trimming loops\<close>

lemma occurs_unbound_HasFree:
  "occurs_unbound n binders t = (HasFree n t \<and> n \<notin> set binders)"
  by (induction t arbitrary: binders) auto

lemma scoped_HasFree: "scoped binders t = (\<forall>n. HasFree n t \<longrightarrow> n \<in> set binders)"
  by (induction t arbitrary: binders) auto

lemma drop_loop_takeWhile:
  "drop_loop side free d = d + length (takeWhile (\<lambda>n. \<not> HasFree n side) free)"
  by (induction free arbitrary: d) auto

lemma drop_loop_le: "drop_loop side free 0 \<le> length free"
  unfolding drop_loop_takeWhile by (simp add: length_takeWhile_le)

lemma slice_drop_loop:
  "slice_from free (drop_loop side free 0) = Some (dropWhile (\<lambda>n. \<not> HasFree n side) free)"
proof -
  have "drop (drop_loop side free 0) free = dropWhile (\<lambda>n. \<not> HasFree n side) free"
    by (simp add: drop_loop_takeWhile dropWhile_eq_drop)
  then show ?thesis using drop_loop_le [of side free] by (simp add: slice_from_def)
qed

lemma Appl_compile_eq:
  "CompileFree globals free (Appl left right meta) =
     (case CompileFree globals (dropWhile (\<lambda>n. \<not> HasFree n left) free) left of
        Inl err \<Rightarrow> Inl err
      | Inr l \<Rightarrow>
     (case CompileFree globals (dropWhile (\<lambda>n. \<not> HasFree n right) free) right of
        Inl err \<Rightarrow> Inl err
      | Inr r \<Rightarrow> Inr (FreeAppl (drop_loop left free 0) (drop_loop right free 0) l r meta)))"
  by (simp add: slice_drop_loop Let_def)

lemma CompileFree_no_panic: "CompileFree globals free t \<noteq> Inl (Panic p)"
proof (induction t arbitrary: free)
  case (Appl l r m)
  then show ?case by (simp only: Appl_compile_eq) (auto split: sum.splits)
qed (auto split: sum.splits option.splits)

lemma dropWhile_keeps:
  assumes "n \<in> set free" and "P n"
  shows "n \<in> set (dropWhile (\<lambda>x. \<not> P x) free)"
proof -
  have "n \<in> set (takeWhile (\<lambda>x. \<not> P x) free) \<union> set (dropWhile (\<lambda>x. \<not> P x) free)"
    using assms(1) by (metis set_append takeWhile_dropWhile_id)
  with assms(2) show ?thesis by (auto dest: set_takeWhileD)
qed

lemma dropWhile_head:
  "dropWhile (\<lambda>x. \<not> P x) free = [] \<or> P (hd (dropWhile (\<lambda>x. \<not> P x) free))"
  using hd_dropWhile [of "\<lambda>x. \<not> P x" free] by auto

text \<open>
  The invariant of the traversal: the environment is empty or starts at a name the node
  references, and holds every name the node references.
\<close>

lemma CompileFree_succeeds:
  "free = [] \<or> HasFree (hd free) t \<Longrightarrow> \<forall>n. HasFree n t \<longrightarrow> n \<in> set free \<Longrightarrow>
   global_names t \<subseteq> dom globals \<Longrightarrow> \<exists>fe. CompileFree globals free t = Inr fe"
proof (induction t arbitrary: free)
  case (Const v m)
  then show ?case by simp
next
  case (Var x m)
  then show ?case by (cases free) auto
next
  case (Abst b body m)
  show ?case
  proof (cases "HasFree b body")
    case True
    have "\<exists>fe. CompileFree globals (b # free) body = Inr fe"
      using Abst.prems True by (intro Abst.IH) auto
    with True show ?thesis by auto
  next
    case False
    have "\<exists>fe. CompileFree globals free body = Inr fe"
      using Abst.prems False by (intro Abst.IH) auto
    with False show ?thesis by auto
  qed
next
  case (Appl l r m)
  let ?lf = "dropWhile (\<lambda>n. \<not> HasFree n l) free"
  let ?rf = "dropWhile (\<lambda>n. \<not> HasFree n r) free"
  have l1: "?lf = [] \<or> HasFree (hd ?lf) l" by (rule dropWhile_head)
  have r1: "?rf = [] \<or> HasFree (hd ?rf) r" by (rule dropWhile_head)
  have l2: "\<forall>n. HasFree n l \<longrightarrow> n \<in> set ?lf"
    using Appl.prems(2) by (auto intro: dropWhile_keeps)
  have r2: "\<forall>n. HasFree n r \<longrightarrow> n \<in> set ?rf"
    using Appl.prems(2) by (auto intro: dropWhile_keeps)
  obtain fl where fl: "CompileFree globals ?lf l = Inr fl"
    using Appl.IH(1)[OF l1 l2] Appl.prems(3) by auto
  obtain fr where fr: "CompileFree globals ?rf r = Inr fr"
    using Appl.IH(2)[OF r1 r2] Appl.prems(3) by auto
  show ?case by (simp only: Appl_compile_eq) (simp add: fl fr)
next
  case (Global x m)
  then show ?case by auto
qed

lemma CompileFree_closed:
  assumes "scoped [] t" and "global_names t \<subseteq> dom globals"
  shows "\<exists>fe. CompileFree globals [] t = Inr fe"
  using assms by (intro CompileFree_succeeds) (auto simp: scoped_HasFree)

subsection \<open>The single-term entry point\<close>

text \<open>
  C1. For every closed node without \<^verbatim>\<open>Global\<close> nodes (every \<^verbatim>\<open>Var\<close> is bound by an
  enclosing \<^verbatim>\<open>Abst\<close>), \<^verbatim>\<open>CompileSingle\<close> returns an expression and no error: the
  result of \<^verbatim>\<open>Fill(nil)\<close> on the expression \<^verbatim>\<open>CompileFree\<close> produced.
\<close>

theorem CompileSingle_closed:
  assumes "scoped [] node" and "global_names node = {}"
  shows "\<exists>free. CompileFree Map.empty [] node = Inr free \<and>
           CompileSingle Fill node = Inr (Fill free [])"
proof -
  obtain free where "CompileFree Map.empty [] node = Inr free"
    using CompileFree_closed [of node Map.empty] assms by auto
  then show ?thesis by (simp add: CompileSingle_def)
qed

theorem CompileSingle_closed_witness:
  "scoped [] (Abst ''x'' (Abst ''y'' (Appl (Var ''x'' ()) (Var ''y'' ()) ()) ()) ()
     :: (unit, unit) Node) \<and>
   global_names (Abst ''x'' (Abst ''y'' (Appl (Var ''x'' ()) (Var ''y'' ()) ()) ()) ()
     :: (unit, unit) Node) = {} \<and>
   (\<exists>free. CompileFree Map.empty []
       (Abst ''x'' (Abst ''y'' (Appl (Var ''x'' ()) (Var ''y'' ()) ()) ()) ()
          :: (unit, unit) Node) = Inr free \<and>
     CompileSingle (\<lambda>f env. f)
       (Abst ''x'' (Abst ''y'' (Appl (Var ''x'' ()) (Var ''y'' ()) ()) ()) ()) = Inr free)"
  using CompileSingle_closed
    [of "Abst ''x'' (Abst ''y'' (Appl (Var ''x'' ()) (Var ''y'' ()) ()) ()) ()" "\<lambda>f env. f"]
  by simp

subsection \<open>CompileFree, node by node\<close>

text \<open>
  C2. Compiling a \<^verbatim>\<open>Var\<close> node succeeds exactly when \<^verbatim>\<open>free\<close> is not empty and starts
  with the node's name, and then gives \<^verbatim>\<open>FreeVar\<close> (the reference to the head of the
  environment) with the node's annotation; otherwise it gives the \<^verbatim>\<open>CompileError\<close>
  that holds the \<^verbatim>\<open>Var\<close> node itself and the message "'name' not defined". The table
  of globals plays no part.
\<close>

theorem CompileFree_Var:
  "((\<exists>fe. CompileFree globals free (Var name meta) = Inr fe) \<longleftrightarrow>
      (free \<noteq> [] \<and> hd free = name)) \<and>
   (free \<noteq> [] \<and> hd free = name \<longrightarrow>
      CompileFree globals free (Var name meta) = Inr (FreeVar meta)) \<and>
   (\<not> (free \<noteq> [] \<and> hd free = name) \<longrightarrow>
      CompileFree globals free (Var name meta) =
        Inl (CompileError (Var name meta) ([CHR 0x27] @ name @ [CHR 0x27] @ '' not defined'')))"
  by (simp add: not_defined_msg_def)

theorem CompileFree_Var_witness:
  "CompileFree Map.empty [''x'', ''y''] (Var ''x'' (3::nat) :: (nat, unit) Node) =
     Inr (FreeVar 3) \<and>
   CompileFree Map.empty [''y'', ''x''] (Var ''x'' (3::nat) :: (nat, unit) Node) =
     Inl (CompileError (Var ''x'' 3) [CHR 0x27, CHR ''x'', CHR 0x27, CHR '' '', CHR ''n'',
       CHR ''o'', CHR ''t'', CHR '' '', CHR ''d'', CHR ''e'', CHR ''f'', CHR ''i'', CHR ''n'',
       CHR ''e'', CHR ''d''])"
  using CompileFree_Var [of Map.empty "[''x'', ''y'']" "''x''" "3::nat"]
    CompileFree_Var [of Map.empty "[''y'', ''x'']" "''x''" "3::nat"]
  by simp

text \<open>
  C3. For an \<^verbatim>\<open>Abst\<close> node: when the body does not reference the bound name, the body
  is compiled with the same \<^verbatim>\<open>free\<close> and the abstraction produced has
  \<^verbatim>\<open>Used = false\<close>; otherwise the body is compiled with the bound name put in front of
  \<^verbatim>\<open>free\<close> and the abstraction has \<^verbatim>\<open>Used = true\<close>. An error of the body is the
  error of the node.
\<close>

theorem CompileFree_Abst:
  "(\<not> HasFree bound body \<longrightarrow>
      CompileFree globals free (Abst bound body meta) =
        (case CompileFree globals free body of
           Inl err \<Rightarrow> Inl err
         | Inr b \<Rightarrow> Inr (FreeAbst False b meta))) \<and>
   (HasFree bound body \<longrightarrow>
      CompileFree globals free (Abst bound body meta) =
        (case CompileFree globals (bound # free) body of
           Inl err \<Rightarrow> Inl err
         | Inr b \<Rightarrow> Inr (FreeAbst True b meta)))"
  by simp

theorem CompileFree_Abst_witness:
  "CompileFree Map.empty [''x''] (Abst ''y'' (Var ''x'' (1::nat)) 2 :: (nat, unit) Node) =
     Inr (FreeAbst False (FreeVar 1) 2) \<and>
   CompileFree Map.empty [''x''] (Abst ''y'' (Var ''y'' (1::nat)) 2 :: (nat, unit) Node) =
     Inr (FreeAbst True (FreeVar 1) 2)"
  using CompileFree_Abst [of "''y''" "Var ''x'' (1::nat)" Map.empty "[''x'']" 2]
    CompileFree_Abst [of "''y''" "Var ''y'' (1::nat)" Map.empty "[''x'']" 2]
  by simp

text \<open>
  C4. For an \<^verbatim>\<open>Appl\<close> node: \<^verbatim>\<open>ldrop\<close> is the number of leading names of \<^verbatim>\<open>free\<close>
  that the left side does not reference, counted up to the first name it references,
  and is \<^verbatim>\<open>len(free)\<close> when it references none; \<^verbatim>\<open>rdrop\<close> is the same for the right
  side; the left side is compiled with \<^verbatim>\<open>free[ldrop:]\<close>, the right side with
  \<^verbatim>\<open>free[rdrop:]\<close>, and the node produced records both counts. For
  \<^verbatim>\<open>free = [x, y, z]\<close>, a left side that references only \<open>y\<close> and a right side that
  references only \<open>z\<close>, the counts are 1 and 2.
\<close>

theorem CompileFree_Appl:
  "drop_loop left free 0 = length (takeWhile (\<lambda>name. \<not> HasFree name left) free) \<and>
   drop_loop right free 0 = length (takeWhile (\<lambda>name. \<not> HasFree name right) free) \<and>
   ((\<forall>name \<in> set free. \<not> HasFree name left) \<longrightarrow> drop_loop left free 0 = length free) \<and>
   ((\<forall>name \<in> set free. \<not> HasFree name right) \<longrightarrow> drop_loop right free 0 = length free) \<and>
   CompileFree globals free (Appl left right meta) =
     (case CompileFree globals (drop (drop_loop left free 0) free) left of
        Inl err \<Rightarrow> Inl err
      | Inr l \<Rightarrow>
     (case CompileFree globals (drop (drop_loop right free 0) free) right of
        Inl err \<Rightarrow> Inl err
      | Inr r \<Rightarrow> Inr (FreeAppl (drop_loop left free 0) (drop_loop right free 0) l r meta))) \<and>
   (x \<noteq> y \<and> x \<noteq> z \<and> y \<noteq> z \<and> (\<forall>name. HasFree name left \<longleftrightarrow> name = y) \<and>
    (\<forall>name. HasFree name right \<longleftrightarrow> name = z) \<longrightarrow>
      drop_loop left [x, y, z] 0 = 1 \<and> drop_loop right [x, y, z] 0 = 2)"
proof -
  have a: "\<And>side. (\<forall>name \<in> set free. \<not> HasFree name side) \<longrightarrow> drop_loop side free 0 = length free"
  proof
    fix side assume "\<forall>name \<in> set free. \<not> HasFree name side"
    then show "drop_loop side free 0 = length free"
      unfolding drop_loop_takeWhile by (induction free) auto
  qed
  have b: "\<And>side. drop (drop_loop side free 0) free = dropWhile (\<lambda>n. \<not> HasFree n side) free"
    by (simp add: drop_loop_takeWhile dropWhile_eq_drop)
  show ?thesis
    apply (intro conjI)
         apply (simp add: drop_loop_takeWhile)
        apply (simp add: drop_loop_takeWhile)
       apply (rule a)
      apply (rule a)
     apply (simp only: b Appl_compile_eq)
    apply simp
    done
qed

theorem CompileFree_Appl_witness:
  "drop_loop (Var ''y'' () :: (unit, unit) Node) [''x'', ''y'', ''z''] 0 = 1 \<and>
   drop_loop (Var ''z'' () :: (unit, unit) Node) [''x'', ''y'', ''z''] 0 = 2 \<and>
   CompileFree Map.empty [''x'', ''y'', ''z'']
     (Appl (Var ''y'' ()) (Var ''z'' ()) () :: (unit, unit) Node) =
     Inr (FreeAppl 1 2 (FreeVar ()) (FreeVar ()) ())"
  using CompileFree_Appl [of "Var ''y'' ()" "[''x'', ''y'', ''z'']" "Var ''z'' ()" Map.empty "()"
      "''x''" "''y''" "''z''"]
  by (simp add: slice_from_def)

text \<open>
  C8. \<^verbatim>\<open>HasFree\<close> answers whether the node holds an occurrence of the name that is not
  bound again inside the node. \<^verbatim>\<open>Const\<close> and \<^verbatim>\<open>Global\<close> give false, \<^verbatim>\<open>Var\<close> gives true
  exactly for its own name, \<^verbatim>\<open>Abst\<close> gives false for its bound name and asks its body
  otherwise, \<^verbatim>\<open>Appl\<close> gives true when one of its sides does.
\<close>

theorem HasFree_spec:
  "HasFree n t = occurs_unbound n [] t \<and>
   HasFree n (Const v meta) = False \<and>
   HasFree n (Global gname meta) = False \<and>
   HasFree n (Var name meta) = (n = name) \<and>
   HasFree n (Abst bound body meta) = (if n = bound then False else HasFree n body) \<and>
   HasFree n (Appl l r meta) = (HasFree n l \<or> HasFree n r)"
  by (simp add: occurs_unbound_HasFree)

theorem HasFree_spec_witness:
  "HasFree ''x'' (Abst ''y'' (Appl (Var ''x'' ()) (Abst ''x'' (Var ''x'' ()) ()) ()) ()
     :: (unit, unit) Node) \<and>
   occurs_unbound ''x'' [] (Abst ''y'' (Appl (Var ''x'' ()) (Abst ''x'' (Var ''x'' ()) ()) ()) ()
     :: (unit, unit) Node) \<and>
   \<not> HasFree ''x'' (Abst ''x'' (Var ''x'' ()) () :: (unit, unit) Node) \<and>
   \<not> occurs_unbound ''x'' [] (Abst ''x'' (Var ''x'' ()) () :: (unit, unit) Node)"
  using HasFree_spec [of "''x''" "Abst ''y'' (Appl (Var ''x'' ()) (Abst ''x'' (Var ''x'' ()) ()) ()) ()"]
    HasFree_spec [of "''x''" "Abst ''x'' (Var ''x'' ()) ()"]
  by simp

text \<open>
  C9. Compiling a \<^verbatim>\<open>Global\<close> node succeeds exactly when its name is a key of the
  table, and then gives \<^verbatim>\<open>FreeRef\<close> with the cell pointer found in the table (the
  pointer, not what the cell holds) and the node's annotation; otherwise it gives the
  \<^verbatim>\<open>CompileError\<close> that holds the \<^verbatim>\<open>Global\<close> node itself and the message
  "'name' not defined". The result is the same for every \<^verbatim>\<open>free\<close>.
\<close>

theorem CompileFree_Global:
  "((\<exists>fe. CompileFree globals free (Global name meta) = Inr fe) \<longleftrightarrow> name \<in> dom globals) \<and>
   (\<forall>cell. globals name = Some cell \<longrightarrow>
      CompileFree globals free (Global name meta) = Inr (FreeRef cell meta)) \<and>
   (globals name = None \<longrightarrow>
      CompileFree globals free (Global name meta) =
        Inl (CompileError (Global name meta) ([CHR 0x27] @ name @ [CHR 0x27] @ '' not defined''))) \<and>
   CompileFree globals free (Global name meta) = CompileFree globals free' (Global name meta)"
  by (auto simp: not_defined_msg_def split: option.splits)

theorem CompileFree_Global_witness:
  "CompileFree [''A'' \<mapsto> Ptr 0] [''x''] (Global ''A'' (5::nat) :: (nat, unit) Node) =
     Inr (FreeRef (Ptr 0) 5) \<and>
   CompileFree Map.empty [''x''] (Global ''A'' (5::nat) :: (nat, unit) Node) =
     Inl (CompileError (Global ''A'' 5) [CHR 0x27, CHR ''A'', CHR 0x27, CHR '' '', CHR ''n'',
       CHR ''o'', CHR ''t'', CHR '' '', CHR ''d'', CHR ''e'', CHR ''f'', CHR ''i'', CHR ''n'',
       CHR ''e'', CHR ''d''])"
  using CompileFree_Global [of "[''A'' \<mapsto> Ptr 0]" "[''x'']" "''A''" "5::nat" "[]"]
    CompileFree_Global [of Map.empty "[''x'']" "''A''" "5::nat" "[]"]
  by simp

text \<open>
  C10. For every \<^verbatim>\<open>Appl\<close> node and every \<^verbatim>\<open>free\<close>, \<^verbatim>\<open>ldrop\<close> and \<^verbatim>\<open>rdrop\<close> are at
  most \<^verbatim>\<open>len(free)\<close>, so both slice expressions are in range and compiling the node
  never panics.
\<close>

theorem Appl_slices_in_bounds:
  "drop_loop left free 0 \<le> length free \<and>
   drop_loop right free 0 \<le> length free \<and>
   slice_from free (drop_loop left free 0) = Some (drop (drop_loop left free 0) free) \<and>
   slice_from free (drop_loop right free 0) = Some (drop (drop_loop right free 0) free) \<and>
   CompileFree globals free (Appl left right meta) \<noteq> Inl (Panic p)"
  by (simp add: drop_loop_le slice_from_def CompileFree_no_panic del: CompileFree.simps)

theorem Appl_slices_in_bounds_witness:
  "drop_loop (Const (FreeOther ()) () :: (unit, unit) Node) [''x'', ''y''] 0 = 2 \<and>
   slice_from [''x'', ''y''] (drop_loop (Const (FreeOther ()) () :: (unit, unit) Node) [''x'', ''y''] 0)
     = Some [] \<and>
   CompileFree Map.empty [''x'', ''y'']
     (Appl (Const (FreeOther ()) ()) (Var ''y'' ()) () :: (unit, unit) Node) =
     Inr (FreeAppl 2 1 (FreeOther ()) (FreeVar ()) ())"
  using Appl_slices_in_bounds [of "Const (FreeOther ()) ()" "[''x'', ''y'']" "Var ''y'' ()"
      Map.empty "()" SliceBounds]
  by (simp add: slice_from_def)

subsection \<open>Annotations\<close>

lemma HasFree_map_Node: "HasFree n (map_Node f g t) = HasFree n t"
  by (induction t) auto

lemma drop_loop_map_Node: "drop_loop (map_Node f g side) free d = drop_loop side free d"
  by (induction free arbitrary: d) (auto simp: HasFree_map_Node)

lemma CompileFree_map_Node:
  "CompileFree globals free (map_Node f g t) =
     map_sum (map_failure f g) (map_FreeExpr f g) (CompileFree globals free t)"
proof (induction t arbitrary: free)
  case (Appl l r m)
  have "CompileFree globals free (map_Node f g (Appl l r m)) =
        CompileFree globals free (Appl (map_Node f g l) (map_Node f g r) (f m))" by simp
  also have "\<dots> = map_sum (map_failure f g) (map_FreeExpr f g) (CompileFree globals free (Appl l r m))"
    by (simp only: Appl_compile_eq HasFree_map_Node drop_loop_map_Node Appl.IH)
       (auto split: sum.splits)
  finally show ?case .
qed (auto simp: HasFree_map_Node split: sum.splits option.splits)

text \<open>
  C7, as stated, fails for \<^verbatim>\<open>Const\<close>: the node \<^verbatim>\<open>Const{Value: &FreeVar{Meta: 1}, Meta: 2}\<close>
  compiles to its \<^verbatim>\<open>Value\<close>, whose annotation is 1; the node's own annotation 2 is not
  in the expression produced.
\<close>

theorem Const_drops_annotation:
  "CompileFree (map_of []) [] (Const (FreeVar (1::nat)) 2 :: (nat, unit) Node) = Inr (FreeVar 1) \<and>
   MetaInfo (Const (FreeVar (1::nat)) 2 :: (nat, unit) Node) = 2 \<and>
   FreeMeta (FreeVar (1::nat) :: (nat, unit) FreeExpr) \<noteq>
     Some (MetaInfo (Const (FreeVar (1::nat)) 2 :: (nat, unit) Node))"
  by simp

text \<open>
  C7, amended. For every \<^verbatim>\<open>Var\<close>, \<^verbatim>\<open>Abst\<close>, \<^verbatim>\<open>Appl\<close> and \<^verbatim>\<open>Global\<close> node, the
  expression that \<^verbatim>\<open>CompileFree\<close> produces holds the node's annotation, unchanged, in
  its \<^verbatim>\<open>Meta\<close> field. For a \<^verbatim>\<open>Const\<close> node the wrapped \<^verbatim>\<open>Value\<close> is returned as it is,
  whatever the node's annotation. The compiler never looks into an annotation:
  renaming all annotations by any function \<open>f\<close> and compiling gives the result of
  compiling and then renaming, for values and errors alike.
\<close>

theorem CompileFree_annotation:
  "((\<forall>v m. t \<noteq> Const v m) \<longrightarrow> CompileFree globals free t = Inr fe \<longrightarrow>
      FreeMeta fe = Some (MetaInfo t)) \<and>
   CompileFree globals free (Const v meta) = Inr v \<and>
   CompileFree globals free (map_Node f id t) =
     map_sum (map_failure f id) (map_FreeExpr f id) (CompileFree globals free t)"
proof (intro conjI impI)
  assume "\<forall>v m. t \<noteq> Const v m" and "CompileFree globals free t = Inr fe"
  then show "FreeMeta fe = Some (MetaInfo t)"
    by (cases t) (auto simp: Let_def split: if_splits sum.splits option.splits)
next
  show "CompileFree globals free (Const v meta) = Inr v" by simp
next
  show "CompileFree globals free (map_Node f id t) =
     map_sum (map_failure f id) (map_FreeExpr f id) (CompileFree globals free t)"
    by (rule CompileFree_map_Node)
qed

theorem CompileFree_annotation_witness:
  "CompileFree Map.empty [] (Abst ''x'' (Var ''x'' (1::nat)) 2 :: (nat, unit) Node) =
     Inr (FreeAbst True (FreeVar 1) 2) \<and>
   FreeMeta (FreeAbst True (FreeVar (1::nat)) 2 :: (nat, unit) FreeExpr) =
     Some (MetaInfo (Abst ''x'' (Var ''x'' (1::nat)) 2 :: (nat, unit) Node)) \<and>
   CompileFree Map.empty [] (map_Node Suc id (Abst ''x'' (Var ''x'' (1::nat)) 2 :: (nat, unit) Node)) =
     Inr (FreeAbst True (FreeVar 2) 3)"
  using CompileFree_annotation [of "Abst ''x'' (Var ''x'' (1::nat)) 2" Map.empty "[]"
      "FreeAbst True (FreeVar 1) 2" "FreeVar 0" 0 Suc]
  by simp

subsection \<open>The batch entry point\<close>

lemma ptrs_loop_other:
  "name \<notin> set names \<Longrightarrow> ptrs_loop (enumerate k names) m name = m name"
  by (induction names arbitrary: k m) auto

lemma ptrs_loop_key:
  "name \<in> set names \<Longrightarrow>
   \<exists>i<length names. names ! i = name \<and> ptrs_loop (enumerate k names) m name = Some (Ptr (k + i))"
proof (induction names arbitrary: k m)
  case Nil
  then show ?case by simp
next
  case (Cons x xs)
  show ?case
  proof (cases "name \<in> set xs")
    case True
    from Cons.IH [OF True, of "Suc k" "m(x \<mapsto> Ptr k)"]
    obtain i where "i < length xs" "xs ! i = name"
      "ptrs_loop (enumerate (Suc k) xs) (m(x \<mapsto> Ptr k)) name = Some (Ptr (Suc k + i))" by blast
    then have "Suc i < length (x # xs) \<and> (x # xs) ! Suc i = name \<and>
      ptrs_loop (enumerate k (x # xs)) m name = Some (Ptr (k + Suc i))" by simp
    then show ?thesis by blast
  next
    case False
    with Cons.prems have "name = x" by simp
    with False have "ptrs_loop (enumerate k (x # xs)) m name = Some (Ptr (k + 0))"
      by (simp add: ptrs_loop_other)
    with \<open>name = x\<close> show ?thesis by (intro exI [of _ 0]) simp
  qed
qed

lemma dom_ptrs_loop: "dom (ptrs_loop (enumerate k names) m) = dom m \<union> set names"
  by (induction names arbitrary: k m) auto

lemma dom_slot_table: "dom (slot_table names) = set names"
  by (simp add: slot_table_def dom_ptrs_loop)

lemma compile_loop_succeeds:
  assumes "\<forall>name \<in> set names. \<exists>node fe.
             map_of globals name = Some node \<and> CompileFree ptrs [] node = Inr fe"
    and "k + length names \<le> length compiled"
  shows "\<exists>compiled'.
           compile_loop Fill globals ptrs (enumerate k names) compiled = Inr compiled' \<and>
           length compiled' = length compiled \<and>
           (\<forall>j<k. compiled' ! j = compiled ! j) \<and>
           (\<forall>i<length names. \<exists>node fe.
              map_of globals (names ! i) = Some node \<and> CompileFree ptrs [] node = Inr fe \<and>
              compiled' ! (k + i) = Some (Fill fe []))"
  using assms
proof (induction names arbitrary: k compiled)
  case Nil
  then show ?case by simp
next
  case (Cons x xs)
  from Cons.prems(1) obtain node fe where
    x: "map_of globals x = Some node" "CompileFree ptrs [] node = Inr fe" by auto
  let ?c = "compiled[k := Some (Fill fe [])]"
  have k: "k < length compiled" using Cons.prems(2) by simp
  have "\<forall>name \<in> set xs. \<exists>node fe.
          map_of globals name = Some node \<and> CompileFree ptrs [] node = Inr fe"
    using Cons.prems(1) by simp
  moreover have "Suc k + length xs \<le> length ?c" using Cons.prems(2) by simp
  ultimately obtain c' where c':
    "compile_loop Fill globals ptrs (enumerate (Suc k) xs) ?c = Inr c'"
    "length c' = length ?c"
    "\<forall>j<Suc k. c' ! j = ?c ! j"
    "\<forall>i<length xs. \<exists>node fe.
        map_of globals (xs ! i) = Some node \<and> CompileFree ptrs [] node = Inr fe \<and>
        c' ! (Suc k + i) = Some (Fill fe [])"
    using Cons.IH [of "Suc k" ?c] by blast
  have 1: "compile_loop Fill globals ptrs (enumerate k (x # xs)) compiled = Inr c'"
    using x k c'(1) by simp
  have 2: "length c' = length compiled" using c'(2) by simp
  have 3: "\<forall>j<k. c' ! j = compiled ! j" using c'(3) by simp
  have 4: "\<forall>i<length (x # xs). \<exists>node fe.
              map_of globals ((x # xs) ! i) = Some node \<and> CompileFree ptrs [] node = Inr fe \<and>
              c' ! (k + i) = Some (Fill fe [])"
  proof (intro allI impI)
    fix i assume i: "i < length (x # xs)"
    show "\<exists>node fe. map_of globals ((x # xs) ! i) = Some node \<and>
            CompileFree ptrs [] node = Inr fe \<and> c' ! (k + i) = Some (Fill fe [])"
    proof (cases i)
      case 0
      have "c' ! k = Some (Fill fe [])" using c'(3) k by simp
      with 0 x show ?thesis by simp
    next
      case (Suc j)
      with i have "j < length xs" by simp
      with c'(4) Suc show ?thesis by simp
    qed
  qed
  from 1 2 3 4 show ?case by blast
qed

lemma compile_loop_fails:
  assumes "\<forall>name \<in> set pre. \<exists>node fe.
             map_of globals name = Some node \<and> CompileFree ptrs [] node = Inr fe"
    and "map_of globals name = Some node"
    and "CompileFree ptrs [] node = Inl err"
    and "k + length pre < length compiled"
  shows "compile_loop Fill globals ptrs (enumerate k (pre @ name # post)) compiled = Inl err"
  using assms(1,4)
proof (induction pre arbitrary: k compiled)
  case Nil
  then show ?case using assms(2,3) by simp
next
  case (Cons x xs)
  from Cons.prems(1) obtain nd fe where
    x: "map_of globals x = Some nd" "CompileFree ptrs [] nd = Inr fe" by auto
  have k: "k < length compiled" using Cons.prems(2) by simp
  have "compile_loop Fill globals ptrs (enumerate (Suc k) (xs @ name # post))
          (compiled[k := Some (Fill fe [])]) = Inl err"
    using Cons.prems by (intro Cons.IH) auto
  then show ?case using x k by simp
qed

lemma map_loop_succeeds:
  assumes "distinct names" and "k + length names \<le> length compiled"
  shows "\<exists>m'. map_loop (enumerate k names) compiled m = Inr m' \<and>
           (\<forall>i<length names. m' (names ! i) = Some (compiled ! (k + i))) \<and>
           (\<forall>n. n \<notin> set names \<longrightarrow> m' n = m n)"
  using assms
proof (induction names arbitrary: k m)
  case Nil
  then show ?case by simp
next
  case (Cons x xs)
  let ?m = "m(x \<mapsto> compiled ! k)"
  have k: "k < length compiled" using Cons.prems(2) by simp
  have "distinct xs" and xn: "x \<notin> set xs" using Cons.prems(1) by auto
  moreover have "Suc k + length xs \<le> length compiled" using Cons.prems(2) by simp
  ultimately obtain m' where m':
    "map_loop (enumerate (Suc k) xs) compiled ?m = Inr m'"
    "\<forall>i<length xs. m' (xs ! i) = Some (compiled ! (Suc k + i))"
    "\<forall>n. n \<notin> set xs \<longrightarrow> m' n = ?m n"
    using Cons.IH [of "Suc k" ?m] by blast
  have 1: "map_loop (enumerate k (x # xs)) compiled m = Inr m'" using k m'(1) by simp
  have 2: "\<forall>i<length (x # xs). m' ((x # xs) ! i) = Some (compiled ! (k + i))"
  proof (intro allI impI)
    fix i assume i: "i < length (x # xs)"
    show "m' ((x # xs) ! i) = Some (compiled ! (k + i))"
    proof (cases i)
      case 0
      then show ?thesis using m'(3) xn by simp
    next
      case (Suc j)
      with i have "j < length xs" by simp
      with m'(2) Suc show ?thesis by simp
    qed
  qed
  have 3: "\<forall>n. n \<notin> set (x # xs) \<longrightarrow> m' n = m n" using m'(3) by simp
  from 1 2 3 show ?case by blast
qed

lemma CompileFree_error_node:
  "CompileFree globals free t = Inl err \<Longrightarrow>
   (\<exists>x meta. err = CompileError (Var x meta) (not_defined_msg x) \<and>
      Var x meta \<in> set (subnodes t)) \<or>
   (\<exists>x meta. err = CompileError (Global x meta) (not_defined_msg x) \<and>
      Global x meta \<in> set (subnodes t) \<and> globals x = None)"
proof (induction t arbitrary: free)
  case (Appl l r m)
  from Appl.prems show ?case
    apply (simp only: Appl_compile_eq)
    apply (auto split: sum.splits dest!: Appl.IH)
    done
next
  case (Abst b body m)
  from Abst.prems show ?case
    by (auto split: if_splits sum.splits dest!: Abst.IH)
qed (auto split: if_splits option.splits)

lemma map_of_entry:
  "distinct (map fst globals) \<Longrightarrow> (n, t) \<in> set globals \<Longrightarrow> map_of globals n = Some t"
  by simp

lemma CompileAll_succeeds:
  assumes d: "distinct (map fst globals)"
    and ok: "\<forall>(n, t) \<in> set globals.
               \<exists>fe. CompileFree (slot_table (map fst globals)) [] t = Inr fe"
  shows "\<exists>m. CompileAll Fill globals = Inr m \<and> dom m = fst ` set globals \<and>
           (\<forall>(n, t) \<in> set globals. \<exists>fe.
              CompileFree (slot_table (map fst globals)) [] t = Inr fe \<and>
              m n = Some (Some (Fill fe [])))"
proof -
  let ?names = "map fst globals"
  let ?ptrs = "slot_table ?names"
  let ?c0 = "replicate (length ?names) (None :: 'c option)"
  have pre: "\<forall>name \<in> set ?names. \<exists>node fe.
      map_of globals name = Some node \<and> CompileFree ?ptrs [] node = Inr fe"
  proof
    fix name assume "name \<in> set ?names"
    then obtain t where t: "(name, t) \<in> set globals" by auto
    with ok obtain fe where "CompileFree ?ptrs [] t = Inr fe" by auto
    with map_of_entry [OF d t] show "\<exists>node fe.
      map_of globals name = Some node \<and> CompileFree ?ptrs [] node = Inr fe" by blast
  qed
  have "0 + length ?names \<le> length ?c0" by simp
  from compile_loop_succeeds [OF pre this, of Fill]
  obtain c' where c':
    "compile_loop Fill globals ?ptrs (enumerate 0 ?names) ?c0 = Inr c'"
    "length c' = length ?c0"
    "\<forall>i<length ?names. \<exists>node fe.
        map_of globals (?names ! i) = Some node \<and> CompileFree ?ptrs [] node = Inr fe \<and>
        c' ! (0 + i) = Some (Fill fe [])"
    by blast
  have "0 + length ?names \<le> length c'" using c'(2) by simp
  from map_loop_succeeds [OF d this, of Map.empty]
  obtain m where m:
    "map_loop (enumerate 0 ?names) c' Map.empty = Inr m"
    "\<forall>i<length ?names. m (?names ! i) = Some (c' ! (0 + i))"
    "\<forall>n. n \<notin> set ?names \<longrightarrow> m n = None"
    by auto
  have 1: "CompileAll Fill globals = Inr m"
    using c'(1) m(1) by (simp add: CompileAll_def)
  have 3: "\<forall>(n, t) \<in> set globals. \<exists>fe.
      CompileFree ?ptrs [] t = Inr fe \<and> m n = Some (Some (Fill fe []))"
  proof (intro ballI, clarify)
    fix n t assume nt: "(n, t) \<in> set globals"
    then obtain i where i: "i < length globals" "globals ! i = (n, t)"
      by (auto simp: in_set_conv_nth)
    then have ni: "?names ! i = n" by simp
    from c'(3) i(1) obtain node fe where
      "map_of globals (?names ! i) = Some node" "CompileFree ?ptrs [] node = Inr fe"
      "c' ! (0 + i) = Some (Fill fe [])" by auto
    moreover have "map_of globals n = Some t" by (rule map_of_entry [OF d nt])
    moreover have "m n = Some (c' ! (0 + i))" using m(2) i(1) ni by auto
    ultimately show "\<exists>fe. CompileFree ?ptrs [] t = Inr fe \<and> m n = Some (Some (Fill fe []))"
      using ni by auto
  qed
  have 2: "dom m = fst ` set globals"
  proof
    show "dom m \<subseteq> fst ` set globals" using m(3) by auto
    show "fst ` set globals \<subseteq> dom m" using 3 by force
  qed
  from 1 2 3 show ?thesis by blast
qed

lemma CompileAll_first_failure:
  assumes d: "distinct (map fst globals)"
    and split: "globals = pre @ (name, node) # post"
    and ok: "\<forall>(n, t) \<in> set pre.
               \<exists>fe. CompileFree (slot_table (map fst globals)) [] t = Inr fe"
    and bad: "CompileFree (slot_table (map fst globals)) [] node = Inl err"
  shows "CompileAll Fill globals = Inl err"
proof -
  let ?names = "map fst globals"
  let ?ptrs = "slot_table ?names"
  let ?c0 = "replicate (length ?names) (None :: 'c option)"
  have names: "?names = map fst pre @ name # map fst post" using split by simp
  have pre: "\<forall>x \<in> set (map fst pre). \<exists>nd fe.
      map_of globals x = Some nd \<and> CompileFree ?ptrs [] nd = Inr fe"
  proof
    fix x assume "x \<in> set (map fst pre)"
    then obtain t where t: "(x, t) \<in> set pre" by auto
    with ok obtain fe where fe: "CompileFree ?ptrs [] t = Inr fe" by auto
    from t split have "(x, t) \<in> set globals" by simp
    from map_of_entry [OF d this] fe show "\<exists>nd fe.
      map_of globals x = Some nd \<and> CompileFree ?ptrs [] nd = Inr fe" by blast
  qed
  have "(name, node) \<in> set globals" using split by simp
  then have nd: "map_of globals name = Some node" by (rule map_of_entry [OF d])
  have "0 + length (map fst pre) < length ?c0" using split by simp
  from compile_loop_fails [OF pre nd bad this, of Fill "map fst post"]
  have "compile_loop Fill globals ?ptrs (enumerate 0 ?names) ?c0 = Inl err"
    by (simp only: names)
  then show ?thesis by (simp add: CompileAll_def)
qed

text \<open>
  C5. For two globals \<open>a\<close> and \<open>b\<close> whose nodes refer to each other through
  \<^verbatim>\<open>Global\<close> nodes and are closed otherwise, \<^verbatim>\<open>CompileAll\<close> succeeds and the map it
  returns has an executable for both names (in whichever order the map is ranged
  over). In general, a \<^verbatim>\<open>Global\<close> node whose name is a key of the input resolves to
  the cell \<^verbatim>\<open>&compiled[i]\<close> of its name, from the table that is filled before the
  compiling loop starts and handed to every \<^verbatim>\<open>CompileFree\<close> call of the batch.
\<close>

theorem CompileAll_mutual_recursion:
  "(a \<noteq> b \<and> scoped [] ta \<and> scoped [] tb \<and>
    b \<in> global_names ta \<and> a \<in> global_names tb \<and>
    global_names ta \<subseteq> {a, b} \<and> global_names tb \<subseteq> {a, b} \<longrightarrow>
      (\<exists>m ea eb. CompileAll Fill [(a, ta), (b, tb)] = Inr m \<and> dom m = {a, b} \<and>
         m a = Some (Some ea) \<and> m b = Some (Some eb))) \<and>
   (name \<in> fst ` set globals \<longrightarrow>
      (\<exists>i<length globals. fst (globals ! i) = name \<and>
         slot_table (map fst globals) name = Some (Ptr i) \<and>
         (\<forall>free meta. CompileFree (slot_table (map fst globals)) free (Global name meta) =
            Inr (FreeRef (Ptr i) meta))))"
proof (intro conjI impI)
  assume h: "a \<noteq> b \<and> scoped [] ta \<and> scoped [] tb \<and>
    b \<in> global_names ta \<and> a \<in> global_names tb \<and>
    global_names ta \<subseteq> {a, b} \<and> global_names tb \<subseteq> {a, b}"
  let ?g = "[(a, ta), (b, tb)]"
  have dom: "dom (slot_table (map fst ?g)) = {a, b}" by (simp add: dom_slot_table)
  have d: "distinct (map fst ?g)" using h by simp
  have "\<exists>fe. CompileFree (slot_table (map fst ?g)) [] ta = Inr fe"
    using h dom by (intro CompileFree_closed) auto
  moreover have "\<exists>fe. CompileFree (slot_table (map fst ?g)) [] tb = Inr fe"
    using h dom by (intro CompileFree_closed) auto
  ultimately have ok: "\<forall>(n, t) \<in> set ?g.
      \<exists>fe. CompileFree (slot_table (map fst ?g)) [] t = Inr fe" by simp
  from CompileAll_succeeds [OF d ok, of Fill]
  obtain m where m: "CompileAll Fill ?g = Inr m" "dom m = fst ` set ?g"
    "\<forall>(n, t) \<in> set ?g. \<exists>fe.
       CompileFree (slot_table (map fst ?g)) [] t = Inr fe \<and> m n = Some (Some (Fill fe []))"
    by blast
  from m(3) obtain ea eb where "m a = Some (Some ea)" "m b = Some (Some eb)" by auto
  moreover have "dom m = {a, b}" using m(2) by auto
  ultimately show "\<exists>m ea eb. CompileAll Fill ?g = Inr m \<and> dom m = {a, b} \<and>
         m a = Some (Some ea) \<and> m b = Some (Some eb)" using m(1) by blast
next
  assume "name \<in> fst ` set globals"
  then have "name \<in> set (map fst globals)" by simp
  from ptrs_loop_key [OF this, of 0 Map.empty]
  obtain i where i: "i < length (map fst globals)" "map fst globals ! i = name"
    "slot_table (map fst globals) name = Some (Ptr i)"
    by (auto simp: slot_table_def)
  then have "i < length globals \<and> fst (globals ! i) = name \<and>
         slot_table (map fst globals) name = Some (Ptr i) \<and>
         (\<forall>free meta. CompileFree (slot_table (map fst globals)) free (Global name meta) =
            Inr (FreeRef (Ptr i) meta))" by simp
  then show "\<exists>i<length globals. fst (globals ! i) = name \<and>
         slot_table (map fst globals) name = Some (Ptr i) \<and>
         (\<forall>free meta. CompileFree (slot_table (map fst globals)) free (Global name meta) =
            Inr (FreeRef (Ptr i) meta))" by (intro exI)
qed

theorem CompileAll_mutual_recursion_witness:
  "(\<exists>m. CompileAll (\<lambda>f env. f)
      [(''A'', Abst ''x'' (Appl (Global ''B'' ()) (Var ''x'' ()) ()) () :: (unit, unit) Node),
       (''B'', Global ''A'' ())] = Inr m \<and> dom m = {''A'', ''B''} \<and>
      m ''A'' = Some (Some (FreeAbst True (FreeAppl 1 0 (FreeRef (Ptr 1) ()) (FreeVar ()) ()) ())) \<and>
      m ''B'' = Some (Some (FreeRef (Ptr 0) ()))) \<and>
   slot_table (map fst
      [(''A'', Abst ''x'' (Appl (Global ''B'' ()) (Var ''x'' ()) ()) () :: (unit, unit) Node),
       (''B'', Global ''A'' ())]) ''B'' = Some (Ptr 1)"
proof -
  let ?ta = "Abst ''x'' (Appl (Global ''B'' ()) (Var ''x'' ()) ()) () :: (unit, unit) Node"
  let ?tb = "Global ''A'' () :: (unit, unit) Node"
  have run: "CompileAll (\<lambda>f env. f) [(''A'', ?ta), (''B'', ?tb)] =
    Inr [''A'' \<mapsto> Some (FreeAbst True (FreeAppl 1 0 (FreeRef (Ptr 1) ()) (FreeVar ()) ()) ()),
         ''B'' \<mapsto> Some (FreeRef (Ptr 0) ())]"
    by (simp add: CompileAll_def slot_table_def slice_from_def Let_def numeral_2_eq_2)
  have tab: "slot_table (map fst [(''A'', ?ta), (''B'', ?tb)]) ''B'' = Some (Ptr 1)"
    by (simp add: slot_table_def)
  have hyp: "''A'' \<noteq> ''B'' \<and> scoped [] ?ta \<and> scoped [] ?tb \<and>
    ''B'' \<in> global_names ?ta \<and> ''A'' \<in> global_names ?tb \<and>
    global_names ?ta \<subseteq> {''A'', ''B''} \<and> global_names ?tb \<subseteq> {''A'', ''B''}"
    by simp
  from CompileAll_mutual_recursion [of "''A''" "''B''" ?ta ?tb "\<lambda>f env. f" "''B''"
      "[(''A'', ?ta), (''B'', ?tb)]", THEN conjunct1] hyp
  have ex: "\<exists>m ea eb. CompileAll (\<lambda>f env. f) [(''A'', ?ta), (''B'', ?tb)] = Inr m \<and>
      dom m = {''A'', ''B''} \<and> m ''A'' = Some (Some ea) \<and> m ''B'' = Some (Some eb)"
    by (rule mp)
  have "dom [''A'' \<mapsto> Some (FreeAbst True (FreeAppl 1 0 (FreeRef (Ptr 1) ()) (FreeVar ()) ()) ()),
         ''B'' \<mapsto> Some (FreeRef (Ptr 0) () :: (unit, unit) FreeExpr)] = {''A'', ''B''}"
    by auto
  with ex run tab show ?thesis by simp
qed

text \<open>
  C6. When the node of some global fails to compile, \<^verbatim>\<open>CompileAll\<close> returns an error
  and no map: the error of the first failing entry in the order of the loop (the
  entries before it compiled), which names a \<^verbatim>\<open>Var\<close> or an undefined \<^verbatim>\<open>Global\<close> node
  of that entry's tree. When only one entry fails, it is the error of that entry.
\<close>

theorem CompileAll_rejects_batch:
  assumes "distinct (map fst globals)"
    and "(name, node) \<in> set globals"
    and "CompileFree (slot_table (map fst globals)) [] node = Inl err"
  shows "\<exists>pre name' node' post err'.
      globals = pre @ (name', node') # post \<and>
      (\<forall>(n, t) \<in> set pre. \<exists>fe. CompileFree (slot_table (map fst globals)) [] t = Inr fe) \<and>
      CompileFree (slot_table (map fst globals)) [] node' = Inl err' \<and>
      CompileAll Fill globals = Inl err' \<and>
      ((\<exists>x meta. err' = CompileError (Var x meta) (not_defined_msg x) \<and>
          Var x meta \<in> set (subnodes node')) \<or>
       (\<exists>x meta. err' = CompileError (Global x meta) (not_defined_msg x) \<and>
          Global x meta \<in> set (subnodes node') \<and> x \<notin> fst ` set globals)) \<and>
      ((\<forall>(n, t) \<in> set globals. (n, t) \<noteq> (name, node) \<longrightarrow>
          (\<exists>fe. CompileFree (slot_table (map fst globals)) [] t = Inr fe)) \<longrightarrow>
        err' = err \<and> node' = node)"
proof -
  let ?ptrs = "slot_table (map fst globals)"
  let ?bad = "\<lambda>(n, t). \<exists>e. CompileFree ?ptrs [] t = Inl e"
  have "\<exists>x \<in> set globals. ?bad x" using assms(2,3) by auto
  from split_list_first_prop [OF this]
  obtain pre x post where sp: "globals = pre @ x # post" "?bad x" "\<forall>y \<in> set pre. \<not> ?bad y"
    by blast
  obtain name' node' where x: "x = (name', node')" by (cases x)
  from sp(2) x obtain err' where bad: "CompileFree ?ptrs [] node' = Inl err'" by auto
  have ok: "\<forall>(n, t) \<in> set pre. \<exists>fe. CompileFree ?ptrs [] t = Inr fe"
  proof (intro ballI, clarify)
    fix n t assume "(n, t) \<in> set pre"
    with sp(3) have "\<forall>e. CompileFree ?ptrs [] t \<noteq> Inl e" by auto
    then show "\<exists>fe. CompileFree ?ptrs [] t = Inr fe" by (cases "CompileFree ?ptrs [] t") auto
  qed
  have split: "globals = pre @ (name', node') # post" using sp(1) x by simp
  have run: "CompileAll Fill globals = Inl err'"
    by (rule CompileAll_first_failure [OF assms(1) split ok bad])
  have nodeP: "(\<exists>x meta. err' = CompileError (Var x meta) (not_defined_msg x) \<and>
          Var x meta \<in> set (subnodes node')) \<or>
       (\<exists>x meta. err' = CompileError (Global x meta) (not_defined_msg x) \<and>
          Global x meta \<in> set (subnodes node') \<and> x \<notin> fst ` set globals)"
  proof -
    have "\<And>x. ?ptrs x = None \<Longrightarrow> x \<notin> fst ` set globals"
    proof -
      fix x assume "?ptrs x = None"
      then have "x \<notin> dom ?ptrs" by (simp add: domIff)
      then show "x \<notin> fst ` set globals" by (simp add: dom_slot_table)
    qed
    with CompileFree_error_node [OF bad] show ?thesis by blast
  qed
  have only: "(\<forall>(n, t) \<in> set globals. (n, t) \<noteq> (name, node) \<longrightarrow>
          (\<exists>fe. CompileFree ?ptrs [] t = Inr fe)) \<longrightarrow> err' = err \<and> node' = node"
  proof
    assume a: "\<forall>(n, t) \<in> set globals. (n, t) \<noteq> (name, node) \<longrightarrow>
          (\<exists>fe. CompileFree ?ptrs [] t = Inr fe)"
    have "(name', node') \<in> set globals" using split by simp
    with a bad have "(name', node') = (name, node)" by force
    with bad assms(3) show "err' = err \<and> node' = node" by simp
  qed
  from split ok bad run nodeP only
  have "globals = pre @ (name', node') # post \<and>
      (\<forall>(n, t) \<in> set pre. \<exists>fe. CompileFree ?ptrs [] t = Inr fe) \<and>
      CompileFree ?ptrs [] node' = Inl err' \<and>
      CompileAll Fill globals = Inl err' \<and>
      ((\<exists>x meta. err' = CompileError (Var x meta) (not_defined_msg x) \<and>
          Var x meta \<in> set (subnodes node')) \<or>
       (\<exists>x meta. err' = CompileError (Global x meta) (not_defined_msg x) \<and>
          Global x meta \<in> set (subnodes node') \<and> x \<notin> fst ` set globals)) \<and>
      ((\<forall>(n, t) \<in> set globals. (n, t) \<noteq> (name, node) \<longrightarrow>
          (\<exists>fe. CompileFree ?ptrs [] t = Inr fe)) \<longrightarrow>
        err' = err \<and> node' = node)"
    by (intro conjI)
  then show ?thesis by (intro exI)
qed

theorem CompileAll_rejects_batch_witness:
  "distinct (map fst [(''A'', Global ''B'' () :: (unit, unit) Node), (''B'', Var ''x'' ())]) \<and>
   CompileFree (slot_table (map fst
       [(''A'', Global ''B'' () :: (unit, unit) Node), (''B'', Var ''x'' ())])) []
     (Var ''x'' () :: (unit, unit) Node) = Inl (CompileError (Var ''x'' ()) (not_defined_msg ''x'')) \<and>
   CompileAll (\<lambda>f env. f) [(''A'', Global ''B'' () :: (unit, unit) Node), (''B'', Var ''x'' ())] =
     Inl (CompileError (Var ''x'' ()) (not_defined_msg ''x''))"
proof -
  let ?g = "[(''A'', Global ''B'' () :: (unit, unit) Node), (''B'', Var ''x'' ())]"
  have d: "distinct (map fst ?g)" by simp
  have m: "(''B'', Var ''x'' ()) \<in> set ?g" by simp
  have bad: "CompileFree (slot_table (map fst ?g)) [] (Var ''x'' () :: (unit, unit) Node) =
    Inl (CompileError (Var ''x'' ()) (not_defined_msg ''x''))" by simp
  have okA: "\<forall>(n, t) \<in> set ?g. (n, t) \<noteq> (''B'', Var ''x'' ()) \<longrightarrow>
          (\<exists>fe. CompileFree (slot_table (map fst ?g)) [] t = Inr fe)"
    by (simp add: slot_table_def)
  from CompileAll_rejects_batch [OF d m bad, of "\<lambda>f env. f"] okA
  have "CompileAll (\<lambda>f env. f) ?g = Inl (CompileError (Var ''x'' ()) (not_defined_msg ''x''))"
    by blast
  with d bad show ?thesis by blast
qed

end
